theory Spec2Isabelle
  imports Main "HOL-Library.Word"
begin

section \<open>The contract DAOSkillProofFHE\<close>

text \<open>
  The Solidity contract \<^verbatim>\<open>DAOSkillProofFHE\<close> (the second document of
  \<^verbatim>\<open>src/frontend/web/src/App.tsx\<close>, from \<^verbatim>\<open>pragma solidity ^0.8.24\<close> on) as
  state-passing functions. A call either reverts, which is the value \<open>Inl\<close> of the
  error and leaves the storage as it was, or returns the storage it has written.
\<close>

subsection \<open>Value types\<close>

type_synonym address = "160 word"
type_synonym uint32 = "32 word"
type_synonym uint256 = "256 word"
type_synonym bytes32 = "256 word"
type_synonym bytes = "8 word list"

text \<open>An \<^verbatim>\<open>euint32\<close> is a handle of the encryption library: the contract stores and
  passes it on and never looks inside.\<close>

type_synonym euint32 = "256 word"

text \<open>The errors the contract declares, then \<^verbatim>\<open>InvalidState\<close>, which
  \<^verbatim>\<open>_requireInitialized\<close> raises without a declaration, and the arithmetic panic of
  checked \<^verbatim>\<open>uint256\<close> addition (Solidity 0.8).\<close>

datatype error =
    NotOwner
  | NotProvider
  | Paused
  | CooldownActive
  | InvalidBatch
  | BatchClosed
  | InvalidArgument
  | ReplayDetected
  | StateMismatch
  | DecryptionFailed
  | InvalidState
  | Panic

record SkillContribution =
  skillScore :: euint32
  contributionScore :: euint32
  totalScore :: euint32
  exists :: bool

text \<open>The fields \<^verbatim>\<open>id\<close> and \<^verbatim>\<open>open\<close> of \<^verbatim>\<open>struct Batch\<close>.\<close>

record Batch =
  idB :: uint32
  openB :: bool

record DecryptionContext =
  batchId :: uint32
  stateHash :: bytes32
  processed :: bool

text \<open>The events; \<^verbatim>\<open>Paused\<close> and \<^verbatim>\<open>BatchClosed\<close> name an error as well, so these two
  events carry a suffix.\<close>

datatype event =
    ProviderAdded address
  | ProviderRemoved address
  | PausedEvent address
  | Unpaused address
  | CooldownSet uint256
  | BatchOpened uint32
  | BatchClosedEvent uint32
  | ContributionSubmitted address uint32 bytes32
  | DecryptionRequested uint256 uint32
  | DecryptionCompleted uint256 uint32 uint256

subsection \<open>Storage\<close>

text \<open>
  A Solidity mapping is total: a key never written reads as the zero value of its type.
  \<open>fheInitialized\<close> is what \<^verbatim>\<open>FHE.isInitialized()\<close> returns, \<open>events\<close> the log
  in emission order, and \<open>decryptionRequests\<close> the arrays passed to
  \<^verbatim>\<open>FHE.requestDecryption\<close>, in call order: what the contract has sent to the oracle.
\<close>

record state =
  providers :: "address \<Rightarrow> bool"
  batches :: "uint32 \<Rightarrow> Batch"
  contributions :: "bytes32 \<Rightarrow> SkillContribution"
  decryptionContexts :: "uint256 \<Rightarrow> DecryptionContext"
  lastSubmissionTime :: "address \<Rightarrow> uint256"
  lastDecryptionRequestTime :: "address \<Rightarrow> uint256"
  owner :: address
  paused :: bool
  cooldownSeconds :: uint256
  fheInitialized :: bool
  events :: "event list"
  decryptionRequests :: "bytes32 list list"

subsection \<open>What a call receives from outside\<close>

text \<open>
  The library \<^verbatim>\<open>FHE\<close>, \<^verbatim>\<open>keccak256(abi.encode(_, address(this)))\<close> and the contract's
  own address are not part of the source; they are parameters.
  \<open>checkSignatures\<close> is \<open>True\<close> when \<^verbatim>\<open>FHE.checkSignatures\<close> returns and
  \<open>False\<close> when it reverts.
\<close>

record ext =
  asEuint32 :: "uint32 \<Rightarrow> euint32"
  fheAdd :: "euint32 \<Rightarrow> euint32 \<Rightarrow> euint32"
  toBytes32 :: "euint32 \<Rightarrow> bytes32"
  keccakEncode :: "bytes32 list \<Rightarrow> address \<Rightarrow> bytes32"
  checkSignatures :: "uint256 \<Rightarrow> bytes \<Rightarrow> bytes \<Rightarrow> bool"
  thisAddress :: address

text \<open>
  The surroundings of one call: \<^verbatim>\<open>msg.sender\<close>, \<^verbatim>\<open>block.timestamp\<close>, the request id
  that \<^verbatim>\<open>FHE.requestDecryption\<close> returns should the call reach it, and the value of
  the expression \<^verbatim>\<open>batches.length\<close>. The source declares \<^verbatim>\<open>batches\<close> as a mapping,
  reads \<^verbatim>\<open>batches.length\<close> in every function that touches a batch and never
  writes it, so the value is an input of the call. The examples below give it the
  number of batches opened so far, except in the calls to \<^verbatim>\<open>openBatch\<close> that are said
  to read another value.
\<close>

record env =
  msg_sender :: address
  block_timestamp :: uint256
  batches_length :: uint256
  oracle_requestId :: uint256

subsection \<open>Modifiers\<close>

text \<open>A modifier wraps the rest of the call, which stands where the source writes
  \<^verbatim>\<open>_;\<close>.\<close>

definition onlyOwner :: "env \<Rightarrow> state \<Rightarrow> (error + state) \<Rightarrow> error + state" where
  "onlyOwner e s body = (if msg_sender e \<noteq> owner s then Inl NotOwner else body)"

definition onlyProvider :: "env \<Rightarrow> state \<Rightarrow> (error + state) \<Rightarrow> error + state" where
  "onlyProvider e s body = (if \<not> providers s (msg_sender e) then Inl NotProvider else body)"

definition whenNotPaused :: "state \<Rightarrow> (error + state) \<Rightarrow> error + state" where
  "whenNotPaused s body = (if paused s then Inl Paused else body)"

text \<open>Checked addition of two \<^verbatim>\<open>uint256\<close>: \<open>None\<close> is the panic on overflow.\<close>

definition checkedAdd :: "uint256 \<Rightarrow> uint256 \<Rightarrow> uint256 option" where
  "checkedAdd a b = (if unat a + unat b < 2 ^ 256 then Some (a + b) else None)"

definition checkSubmissionCooldown :: "env \<Rightarrow> state \<Rightarrow> (error + state) \<Rightarrow> error + state" where
  "checkSubmissionCooldown e s body =
     (case checkedAdd (lastSubmissionTime s (msg_sender e)) (cooldownSeconds s) of
        None \<Rightarrow> Inl Panic
      | Some deadline \<Rightarrow>
          if block_timestamp e < deadline then Inl CooldownActive else body)"

definition checkDecryptionCooldown :: "env \<Rightarrow> state \<Rightarrow> (error + state) \<Rightarrow> error + state" where
  "checkDecryptionCooldown e s body =
     (case checkedAdd (lastDecryptionRequestTime s (msg_sender e)) (cooldownSeconds s) of
        None \<Rightarrow> Inl Panic
      | Some deadline \<Rightarrow>
          if block_timestamp e < deadline then Inl CooldownActive else body)"

subsection \<open>Construction and initialisation\<close>

definition emit :: "event \<Rightarrow> state \<Rightarrow> state" where
  "emit ev s = s\<lparr>events := events s @ [ev]\<rparr>"

definition initIfNeeded :: "state \<Rightarrow> state" where
  "initIfNeeded s = (if \<not> fheInitialized s then s\<lparr>fheInitialized := True\<rparr> else s)"

definition constructor :: "env \<Rightarrow> state" where
  "constructor e = initIfNeeded
     \<lparr> providers = (\<lambda>_. False),
       batches = (\<lambda>_. \<lparr>idB = 0, openB = False\<rparr>),
       contributions = (\<lambda>_. \<lparr>skillScore = 0, contributionScore = 0, totalScore = 0,
                              exists = False\<rparr>),
       decryptionContexts = (\<lambda>_. \<lparr>batchId = 0, stateHash = 0, processed = False\<rparr>),
       lastSubmissionTime = (\<lambda>_. 0),
       lastDecryptionRequestTime = (\<lambda>_. 0),
       owner = msg_sender e,
       paused = False,
       cooldownSeconds = 60,
       fheInitialized = False,
       events = [],
       decryptionRequests = [] \<rparr>"

subsection \<open>Access control\<close>

definition addProvider :: "env \<Rightarrow> state \<Rightarrow> address \<Rightarrow> error + state" where
  "addProvider e s p =
     onlyOwner e s (whenNotPaused s
       (Inr (emit (ProviderAdded p) (s\<lparr>providers := (providers s)(p := True)\<rparr>))))"

definition removeProvider :: "env \<Rightarrow> state \<Rightarrow> address \<Rightarrow> error + state" where
  "removeProvider e s p =
     onlyOwner e s (whenNotPaused s
       (Inr (emit (ProviderRemoved p) (s\<lparr>providers := (providers s)(p := False)\<rparr>))))"

definition pause :: "env \<Rightarrow> state \<Rightarrow> error + state" where
  "pause e s = onlyOwner e s (Inr (emit (PausedEvent (msg_sender e)) (s\<lparr>paused := True\<rparr>)))"

definition unpause :: "env \<Rightarrow> state \<Rightarrow> error + state" where
  "unpause e s = onlyOwner e s (Inr (emit (Unpaused (msg_sender e)) (s\<lparr>paused := False\<rparr>)))"

definition setCooldownSeconds :: "env \<Rightarrow> state \<Rightarrow> uint256 \<Rightarrow> error + state" where
  "setCooldownSeconds e s c =
     onlyOwner e s
       (if c = 0 then Inl InvalidArgument
        else Inr (emit (CooldownSet c) (s\<lparr>cooldownSeconds := c\<rparr>)))"

subsection \<open>Batches\<close>

definition openBatch :: "env \<Rightarrow> state \<Rightarrow> error + state" where
  "openBatch e s =
     onlyOwner e s (whenNotPaused s
       (let newBatchId = (ucast (batches_length e) :: uint32)
        in Inr (emit (BatchOpened newBatchId)
             (s\<lparr>batches := (batches s)(newBatchId := \<lparr>idB = newBatchId, openB = True\<rparr>)\<rparr>))))"

definition closeBatch :: "env \<Rightarrow> state \<Rightarrow> uint32 \<Rightarrow> error + state" where
  "closeBatch e s b =
     onlyOwner e s (whenNotPaused s
       (if unat (batches_length e) \<le> unat b then Inl InvalidBatch
        else if \<not> openB (batches s b) then Inl BatchClosed
        else Inr (emit (BatchClosedEvent b)
               (s\<lparr>batches := (batches s)(b := (batches s b)\<lparr>openB := False\<rparr>)\<rparr>))))"

subsection \<open>Contributions\<close>

definition submitContribution ::
  "ext \<Rightarrow> env \<Rightarrow> state \<Rightarrow> uint32 \<Rightarrow> bytes32 \<Rightarrow> euint32 \<Rightarrow> euint32 \<Rightarrow> error + state" where
  "submitContribution x e s b cid skill contrib =
     onlyProvider e s (whenNotPaused s (checkSubmissionCooldown e s
       (if unat (batches_length e) \<le> unat b then Inl InvalidBatch
        else if \<not> openB (batches s b) then Inl BatchClosed
        else if exists (contributions s cid) then Inl InvalidArgument
        else
          (let s1 = initIfNeeded s;
               total = fheAdd x skill contrib;
               s2 = s1\<lparr>contributions := (contributions s1)
                      (cid := \<lparr>skillScore = skill, contributionScore = contrib,
                               totalScore = total, exists = True\<rparr>)\<rparr>;
               s3 = s2\<lparr>lastSubmissionTime :=
                      (lastSubmissionTime s2)(msg_sender e := block_timestamp e)\<rparr>
           in Inr (emit (ContributionSubmitted (msg_sender e) b cid) s3)))))"

subsection \<open>The decryption handshake\<close>

definition hashCiphertexts :: "ext \<Rightarrow> bytes32 list \<Rightarrow> bytes32" where
  "hashCiphertexts x cts = keccakEncode x cts (thisAddress x)"

text \<open>
  The two nested loops that \<^verbatim>\<open>requestBatchScoreDecryption\<close> and \<^verbatim>\<open>myCallback\<close>
  both contain, the same text up to the name of the batch id. The inner loop
  counts the indices \<open>j\<close> below \<^verbatim>\<open>batches.length\<close> with \<^verbatim>\<open>batches[uint32(j)].id\<close>
  equal to the batch id. The outer loop stops at the first such index; there it
  replaces the running handle by \<^verbatim>\<open>FHE.asEuint32(uint32(count))\<close> when the count
  is positive.
\<close>

function countLoop :: "state \<Rightarrow> nat \<Rightarrow> uint32 \<Rightarrow> nat \<Rightarrow> nat \<Rightarrow> nat" where
  "countLoop s len b j count =
     (if j < len
      then countLoop s len b (Suc j)
             (if idB (batches s (of_nat j)) = b then Suc count else count)
      else count)"
  by pat_completeness auto
termination
  by (relation "measure (\<lambda>(s, len, b, j, count). len - j)") auto

function scanLoop :: "ext \<Rightarrow> state \<Rightarrow> nat \<Rightarrow> uint32 \<Rightarrow> nat \<Rightarrow> euint32 \<Rightarrow> euint32" where
  "scanLoop x s len b i totalScoreSum =
     (if i < len
      then if idB (batches s (of_nat i)) = b
           then (let count = countLoop s len b 0 0
                 in if count > 0 then asEuint32 x (of_nat count) else totalScoreSum)
           else scanLoop x s len b (Suc i) totalScoreSum
      else totalScoreSum)"
  by pat_completeness auto
termination
  by (relation "measure (\<lambda>(x, s, len, b, i, t). len - i)") auto

declare countLoop.simps [simp del] scanLoop.simps [simp del]

text \<open>The array \<^verbatim>\<open>cts\<close> of one element that both functions build.\<close>

definition batchCiphertexts :: "ext \<Rightarrow> env \<Rightarrow> state \<Rightarrow> uint32 \<Rightarrow> bytes32 list" where
  "batchCiphertexts x e s b =
     [toBytes32 x (scanLoop x s (unat (batches_length e)) b 0 (asEuint32 x 0))]"

definition requestBatchScoreDecryption :: "ext \<Rightarrow> env \<Rightarrow> state \<Rightarrow> uint32 \<Rightarrow> error + state" where
  "requestBatchScoreDecryption x e s b =
     onlyOwner e s (whenNotPaused s (checkDecryptionCooldown e s
       (if unat (batches_length e) \<le> unat b then Inl InvalidBatch
        else if openB (batches s b) then Inl InvalidBatch
        else if \<not> fheInitialized s then Inl InvalidState
        else
          (let cts = batchCiphertexts x e s b;
               h = hashCiphertexts x cts;
               requestId = oracle_requestId e;
               s0 = s\<lparr>decryptionRequests := decryptionRequests s @ [cts]\<rparr>;
               s1 = s0\<lparr>decryptionContexts := (decryptionContexts s0)
                      (requestId := \<lparr>batchId = b, stateHash = h, processed = False\<rparr>)\<rparr>;
               s2 = s1\<lparr>lastDecryptionRequestTime :=
                      (lastDecryptionRequestTime s1)(msg_sender e := block_timestamp e)\<rparr>
           in Inr (emit (DecryptionRequested requestId b) s2)))))"

text \<open>\<^verbatim>\<open>abi.decode(cleartexts, (uint256))\<close> of 32 bytes: the big-endian number.\<close>

definition abiDecodeUint256 :: "bytes \<Rightarrow> uint256" where
  "abiDecodeUint256 bs = foldl (\<lambda>acc byte. acc * 256 + ucast byte) 0 bs"

definition myCallback :: "ext \<Rightarrow> env \<Rightarrow> state \<Rightarrow> uint256 \<Rightarrow> bytes \<Rightarrow> bytes \<Rightarrow> error + state" where
  "myCallback x e s requestId cleartexts proof =
     (if processed (decryptionContexts s requestId) then Inl ReplayDetected
      else if length cleartexts \<noteq> 32 then Inl DecryptionFailed
      else
        (let currentBatchId = batchId (decryptionContexts s requestId);
             cts = batchCiphertexts x e s currentBatchId;
             currentHash = hashCiphertexts x cts
         in if currentHash \<noteq> stateHash (decryptionContexts s requestId)
            then Inl StateMismatch
            else if checkSignatures x requestId cleartexts proof
            then
              (let decryptedTotalScoreSum = abiDecodeUint256 cleartexts;
                   s1 = s\<lparr>decryptionContexts := (decryptionContexts s)
                          (requestId := (decryptionContexts s requestId)\<lparr>processed := True\<rparr>)\<rparr>
               in Inr (emit (DecryptionCompleted requestId currentBatchId
                               decryptedTotalScoreSum) s1))
            else Inl DecryptionFailed))"

subsection \<open>Transactions\<close>

datatype call =
    AddProvider address
  | RemoveProvider address
  | Pause
  | Unpause
  | SetCooldownSeconds uint256
  | OpenBatch
  | CloseBatch uint32
  | SubmitContribution uint32 bytes32 euint32 euint32
  | RequestBatchScoreDecryption uint32
  | MyCallback uint256 bytes bytes

fun dispatch :: "ext \<Rightarrow> env \<Rightarrow> state \<Rightarrow> call \<Rightarrow> error + state" where
  "dispatch x e s (AddProvider p) = addProvider e s p"
| "dispatch x e s (RemoveProvider p) = removeProvider e s p"
| "dispatch x e s Pause = pause e s"
| "dispatch x e s Unpause = unpause e s"
| "dispatch x e s (SetCooldownSeconds c) = setCooldownSeconds e s c"
| "dispatch x e s OpenBatch = openBatch e s"
| "dispatch x e s (CloseBatch b) = closeBatch e s b"
| "dispatch x e s (SubmitContribution b cid skill contrib) =
     submitContribution x e s b cid skill contrib"
| "dispatch x e s (RequestBatchScoreDecryption b) = requestBatchScoreDecryption x e s b"
| "dispatch x e s (MyCallback r cleartexts proof) = myCallback x e s r cleartexts proof"

text \<open>A transaction that reverts leaves the storage and the log as they were.\<close>

definition transact :: "ext \<Rightarrow> state \<Rightarrow> env \<times> call \<Rightarrow> state" where
  "transact x s ec = (case dispatch x (fst ec) s (snd ec) of Inl err \<Rightarrow> s | Inr s' \<Rightarrow> s')"

fun run :: "ext \<Rightarrow> state \<Rightarrow> (env \<times> call) list \<Rightarrow> state" where
  "run x s [] = s"
| "run x s (ec # ecs) = run x (transact x s ec) ecs"



text \<open>The contribution ids of the \<^verbatim>\<open>ContributionSubmitted\<close> events of a log, in order.\<close>

fun contributionIds :: "event list \<Rightarrow> bytes32 list" where
  "contributionIds [] = []"
| "contributionIds (ContributionSubmitted p b cid # evs) = cid # contributionIds evs"
| "contributionIds (ev # evs) = contributionIds evs"

text \<open>The stored contributions are those named by the submission events, each named once.\<close>

definition storedOnce :: "state \<Rightarrow> bool" where
  "storedOnce s \<longleftrightarrow>
     distinct (contributionIds (events s))
     \<and> (\<forall>cid. cid \<in> set (contributionIds (events s)) \<longleftrightarrow> exists (contributions s cid))"

subsection \<open>A concrete deployment\<close>

text \<open>
  Stand-ins for the library, used where a result is evaluated on an example: handles
  are numbers, \<^verbatim>\<open>FHE.add\<close> adds them, the hash is a sum that is never zero on the
  examples, and a proof is accepted when it is the single byte 1.
\<close>

definition demoExt :: ext where
  "demoExt =
     \<lparr> asEuint32 = ucast,
       fheAdd = (\<lambda>a b. a + b),
       toBytes32 = (\<lambda>h. h),
       keccakEncode = (\<lambda>cts a. sum_list cts + ucast a + 1),
       checkSignatures = (\<lambda>r c p. p = [1]),
       thisAddress = 42 \<rparr>"

text \<open>A call by \<open>a\<close> at time \<open>t\<close> that reads \<open>n\<close> for \<^verbatim>\<open>batches.length\<close>; the oracle's
  next request id is 7.\<close>

definition callEnv :: "address \<Rightarrow> uint256 \<Rightarrow> uint256 \<Rightarrow> env" where
  "callEnv a t n = \<lparr>msg_sender = a, block_timestamp = t, batches_length = n,
                    oracle_requestId = 7\<rparr>"

text \<open>
  Owner 1 deploys, opens batch 0 and adds provider 2; the provider submits
  contribution 11 with handles 5 and 6; the owner closes the batch and requests its
  decryption, which the oracle numbers 7; caller 9 delivers the callback.
\<close>

definition demoSubmitted :: state where
  "demoSubmitted = run demoExt (constructor (callEnv 1 100 0))
     [(callEnv 1 100 0, OpenBatch),
      (callEnv 1 100 1, AddProvider 2),
      (callEnv 2 200 1, SubmitContribution 0 11 5 6)]"

definition demoClosed :: state where
  "demoClosed = transact demoExt demoSubmitted (callEnv 1 300 1, CloseBatch 0)"

definition demoRequested :: state where
  "demoRequested =
     transact demoExt demoClosed (callEnv 1 400 1, RequestBatchScoreDecryption 0)"

definition demoCleartexts :: bytes where
  "demoCleartexts = replicate 31 0 @ [3]"

definition demoCompleted :: state where
  "demoCompleted =
     transact demoExt demoRequested (callEnv 9 500 1, MyCallback 7 demoCleartexts [1])"



text \<open>The same deployment with a second contribution submitted before the batch is closed
  and its decryption requested.\<close>

definition demoClosedTwo :: state where
  "demoClosedTwo = run demoExt demoSubmitted
     [(callEnv 2 300 1, SubmitContribution 0 12 8 9), (callEnv 1 350 1, CloseBatch 0)]"

definition demoRequestedTwo :: state where
  "demoRequestedTwo =
     transact demoExt demoClosedTwo (callEnv 1 400 1, RequestBatchScoreDecryption 0)"


text \<open>The deployment paused by its owner right after construction.\<close>

definition demoPaused :: state where
  "demoPaused = transact demoExt (constructor (callEnv 1 100 0)) (callEnv 1 150 0, Pause)"

text \<open>The deployment after the first submission, with the cooldown then set by the owner
  to the largest \<^verbatim>\<open>uint256\<close>.\<close>

definition demoLongCooldown :: state where
  "demoLongCooldown =
     transact demoExt demoSubmitted (callEnv 1 250 1, SetCooldownSeconds (- 1))"

section \<open>The aggregate loops\<close>

text \<open>The inner loop counts the matching indices from \<open>j\<close> on.\<close>

lemma countLoop_filter:
  "countLoop s len b j count =
     count + length (filter (\<lambda>k. idB (batches s (of_nat k)) = b) [j..<len])"
proof (induction s len b j count rule: countLoop.induct)
  case (1 s len b j count)
  show ?case
  proof (cases "j < len")
    case True
    then show ?thesis
      using "1.IH" [OF True] by (subst countLoop.simps) (simp add: upt_conv_Cons)
  next
    case False
    then show ?thesis by (subst countLoop.simps) simp
  qed
qed

text \<open>The outer loop: without a matching index it returns the handle it was given; with one,
  the handle made from the count over the whole range.\<close>

lemma scanLoop_none:
  "\<forall>k. i \<le> k \<and> k < len \<longrightarrow> idB (batches s (of_nat k)) \<noteq> b \<Longrightarrow> scanLoop x s len b i t = t"
proof (induction x s len b i t rule: scanLoop.induct)
  case (1 x s len b i t)
  show ?case
  proof (cases "i < len")
    case True
    with "1.prems" have ne: "idB (batches s (of_nat i)) \<noteq> b" by simp
    have "scanLoop x s len b (Suc i) t = t"
      using "1.IH" [OF True ne] "1.prems" by simp
    with True ne show ?thesis by (subst scanLoop.simps) simp
  next
    case False
    then show ?thesis by (subst scanLoop.simps) simp
  qed
qed

lemma scanLoop_some:
  "\<exists>k. i \<le> k \<and> k < len \<and> idB (batches s (of_nat k)) = b \<Longrightarrow>
   scanLoop x s len b i t = asEuint32 x (of_nat (countLoop s len b 0 0))"
proof (induction x s len b i t rule: scanLoop.induct)
  case (1 x s len b i t)
  from "1.prems" obtain k where k: "i \<le> k" "k < len" "idB (batches s (of_nat k)) = b"
    by blast
  then have lt: "i < len" by simp
  show ?case
  proof (cases "idB (batches s (of_nat i)) = b")
    case True
    have "k \<in> set (filter (\<lambda>k. idB (batches s (of_nat k)) = b) [0..<len])"
      using k by simp
    then have "0 < length (filter (\<lambda>k. idB (batches s (of_nat k)) = b) [0..<len])"
      by (rule length_pos_if_in_set)
    then have "0 < countLoop s len b 0 0" by (simp add: countLoop_filter)
    with True lt show ?thesis by (subst scanLoop.simps) (simp add: Let_def)
  next
    case False
    with k have "Suc i \<le> k" by (cases "k = i") auto
    with k have "\<exists>k. Suc i \<le> k \<and> k < len \<and> idB (batches s (of_nat k)) = b" by blast
    from "1.IH" [OF lt False this] lt False show ?thesis
      by (subst scanLoop.simps) simp
  qed
qed

lemma scanLoop_count:
  "scanLoop x s len b 0 (asEuint32 x 0) =
     asEuint32 x (of_nat (length (filter (\<lambda>k. idB (batches s (of_nat k)) = b) [0..<len])))"
proof (cases "\<exists>k. 0 \<le> k \<and> k < len \<and> idB (batches s (of_nat k)) = b")
  case True
  then show ?thesis by (simp only: scanLoop_some countLoop_filter) simp
next
  case False
  then have "filter (\<lambda>k. idB (batches s (of_nat k)) = b) [0..<len] = []"
    by (auto simp: filter_empty_conv)
  moreover from False have "scanLoop x s len b 0 (asEuint32 x 0) = asEuint32 x 0"
    by (intro scanLoop_none) auto
  ultimately show ?thesis by simp
qed

lemmas op_defs = addProvider_def removeProvider_def pause_def unpause_def setCooldownSeconds_def
  openBatch_def closeBatch_def submitContribution_def requestBatchScoreDecryption_def myCallback_def
  onlyOwner_def onlyProvider_def whenNotPaused_def checkSubmissionCooldown_def checkDecryptionCooldown_def
  checkedAdd_def emit_def initIfNeeded_def transact_def hashCiphertexts_def batchCiphertexts_def


lemma demoSubmitted_eq: "demoSubmitted = 
   \<lparr> providers = (\<lambda>_. False)(2 := True),
       batches = (\<lambda>_. \<lparr>idB = 0, openB = False\<rparr>)(0 := \<lparr>idB = 0, openB = True\<rparr>),
       contributions = (\<lambda>_. \<lparr>skillScore = 0, contributionScore = 0, totalScore = 0,
                              exists = False\<rparr>)(11 := \<lparr>skillScore = 5, contributionScore = 6, totalScore = 11,
                              exists = True\<rparr>),
       decryptionContexts = (\<lambda>_. \<lparr>batchId = 0, stateHash = 0, processed = False\<rparr>),
       lastSubmissionTime = (\<lambda>_. 0)(2 := 200),
       lastDecryptionRequestTime = (\<lambda>_. 0),
       owner = 1,
       paused = False,
       cooldownSeconds = 60,
       fheInitialized = True,
       events = [BatchOpened 0, ProviderAdded 2, ContributionSubmitted 2 0 11],
       decryptionRequests = [] \<rparr>"
  by (simp add: demoSubmitted_def demoExt_def callEnv_def constructor_def op_defs Let_def)

lemma demoClosed_eq: "demoClosed = demoSubmitted
   \<lparr> batches := (\<lambda>_. \<lparr>idB = 0, openB = False\<rparr>)(0 := \<lparr>idB = 0, openB = False\<rparr>),
     events := [BatchOpened 0, ProviderAdded 2, ContributionSubmitted 2 0 11, BatchClosedEvent 0] \<rparr>"
  by (simp add: demoClosed_def demoSubmitted_eq callEnv_def op_defs Let_def)

lemma demoRequested_eq: "demoRequested = demoClosed
   \<lparr> decryptionContexts := (\<lambda>_. \<lparr>batchId = 0, stateHash = 0, processed = False\<rparr>)
        (7 := \<lparr>batchId = 0, stateHash = 44, processed = False\<rparr>),
     lastDecryptionRequestTime := (\<lambda>_. 0)(1 := 400),
     events := [BatchOpened 0, ProviderAdded 2, ContributionSubmitted 2 0 11, BatchClosedEvent 0,
                DecryptionRequested 7 0],
     decryptionRequests := [[1]] \<rparr>"
  by (simp add: demoRequested_def demoClosed_eq demoSubmitted_eq callEnv_def op_defs Let_def
       scanLoop.simps countLoop.simps demoExt_def)

lemma abiDecode_zeros: "abiDecodeUint256 (replicate n 0 @ bs) = abiDecodeUint256 bs"
  by (induction n) (simp_all add: abiDecodeUint256_def replicate_app_Cons_same)

lemma demoCleartexts_value: "length demoCleartexts = 32 \<and> abiDecodeUint256 demoCleartexts = 3"
  unfolding demoCleartexts_def abiDecode_zeros by (simp add: abiDecodeUint256_def)

lemma demoCompleted_eq: "demoCompleted = demoRequested
   \<lparr> decryptionContexts := (\<lambda>_. \<lparr>batchId = 0, stateHash = 0, processed = False\<rparr>)
        (7 := \<lparr>batchId = 0, stateHash = 44, processed = True\<rparr>),
     events := [BatchOpened 0, ProviderAdded 2, ContributionSubmitted 2 0 11, BatchClosedEvent 0,
                DecryptionRequested 7 0, DecryptionCompleted 7 0 3] \<rparr>"
  by (simp add: demoCompleted_def demoRequested_eq demoClosed_eq demoSubmitted_eq callEnv_def op_defs Let_def
       scanLoop.simps countLoop.simps demoExt_def demoCleartexts_value)

section \<open>What the decryption request hashes\<close>

lemma batchCiphertexts_count:
  "batchCiphertexts x e s b =
     [toBytes32 x (asEuint32 x (of_nat (length
        (filter (\<lambda>j. idB (batches s (of_nat j)) = b) [0..<unat (batches_length e)]))))]"
  by (simp add: batchCiphertexts_def scanLoop_count)

lemma batchCiphertexts_batches:
  "batches s' = batches s \<Longrightarrow> batchCiphertexts x e s' b = batchCiphertexts x e s b"
  by (simp add: batchCiphertexts_count)

lemma request_contributions:
  "requestBatchScoreDecryption x e (s\<lparr>contributions := c\<rparr>) b =
     map_sum id (contributions_update (\<lambda>_. c)) (requestBatchScoreDecryption x e s b)"
proof -
  have "batchCiphertexts x e (s\<lparr>contributions := c\<rparr>) b = batchCiphertexts x e s b"
    by (rule batchCiphertexts_batches) simp
  then show ?thesis
    by (simp add: requestBatchScoreDecryption_def onlyOwner_def whenNotPaused_def
        checkDecryptionCooldown_def emit_def Let_def split: option.split)
qed

lemma callback_contributions:
  "myCallback x e (s\<lparr>contributions := c\<rparr>) r ct pf =
     map_sum id (contributions_update (\<lambda>_. c)) (myCallback x e s r ct pf)"
proof -
  have "batchCiphertexts x e (s\<lparr>contributions := c\<rparr>) b = batchCiphertexts x e s b" for b
    by (rule batchCiphertexts_batches) simp
  then show ?thesis
    by (simp add: myCallback_def emit_def Let_def)
qed

text \<open>What a successful request and a successful callback have written.\<close>

lemma request_Inr:
  assumes "requestBatchScoreDecryption x e s b = Inr s1"
  shows "s1 = s\<lparr>decryptionContexts := (decryptionContexts s)
                  (oracle_requestId e := \<lparr>batchId = b,
                     stateHash = hashCiphertexts x (batchCiphertexts x e s b),
                     processed = False\<rparr>),
               lastDecryptionRequestTime :=
                  (lastDecryptionRequestTime s)(msg_sender e := block_timestamp e),
               events := events s @ [DecryptionRequested (oracle_requestId e) b],
               decryptionRequests := decryptionRequests s @ [batchCiphertexts x e s b]\<rparr>"
    and "\<not> openB (batches s b)"
    and "msg_sender e = owner s"
  using assms
  by (auto simp: requestBatchScoreDecryption_def onlyOwner_def whenNotPaused_def
      checkDecryptionCooldown_def emit_def Let_def split: if_splits option.splits)

lemma callback_Inr:
  assumes "myCallback x e s r ct pf = Inr s'"
  shows "s' = s\<lparr>decryptionContexts := (decryptionContexts s)
                  (r := (decryptionContexts s r)\<lparr>processed := True\<rparr>),
               events := events s @ [DecryptionCompleted r (batchId (decryptionContexts s r))
                                       (abiDecodeUint256 ct)]\<rparr>"
    and "\<not> processed (decryptionContexts s r)"
    and "checkSignatures x r ct pf"
    and "hashCiphertexts x (batchCiphertexts x e s (batchId (decryptionContexts s r)))
           = stateHash (decryptionContexts s r)"
  using assms by (auto simp: myCallback_def emit_def Let_def split: if_splits)

lemma callback_mismatch_iff:
  assumes "\<not> processed (decryptionContexts s r)" and "length ct = 32"
  shows "myCallback x e s r ct pf = Inl StateMismatch \<longleftrightarrow>
         hashCiphertexts x (batchCiphertexts x e s (batchId (decryptionContexts s r)))
           \<noteq> stateHash (decryptionContexts s r)"
  using assms by (simp add: myCallback_def Let_def)

text \<open>The verdict of the callback (the error, or acceptance) reads the batch table and the
  context, nothing else of the storage.\<close>

lemma callback_verdict:
  assumes "batches s' = batches s" and "decryptionContexts s' r = decryptionContexts s r"
  shows "map_sum id (\<lambda>_. ()) (myCallback x e s' r ct pf)
           = map_sum id (\<lambda>_. ()) (myCallback x e s r ct pf)"
proof -
  have "batchCiphertexts x e s' b = batchCiphertexts x e s b" for b
    using assms(1) by (rule batchCiphertexts_batches)
  then show ?thesis
    using assms(2) by (simp add: myCallback_def Let_def)
qed

text \<open>
  Claim C2. The array that both functions build holds the one handle
  \<^verbatim>\<open>FHE.asEuint32(uint32(count))\<close>, where \<open>count\<close> is the number of indices below
  \<^verbatim>\<open>batches.length\<close> whose batch entry carries the requested id, and it is the same in
  two states with the same batch table, whatever their stored contributions are. A
  successful \<^verbatim>\<open>requestBatchScoreDecryption\<close> sends this array to the oracle and stores
  its hash in the context; on two such states it sends the same array and stores the
  same hash. \<^verbatim>\<open>myCallback\<close> compares the hash of this array with the stored one: it
  reverts with \<^verbatim>\<open>StateMismatch\<close> exactly when they differ (for an unprocessed context
  and a cleartext of 32 bytes), accepts only when they agree, and gives the same verdict
  on two such states that hold the same context. Replacing the stored contributions by
  any others changes nothing else in the result of either function.
\<close>

theorem aggregate_from_batch_table_only:
  assumes "batches s' = batches s"
  shows "batchCiphertexts x e s' b = batchCiphertexts x e s b
       \<and> batchCiphertexts x e s b =
           [toBytes32 x (asEuint32 x (of_nat (length
              (filter (\<lambda>j. idB (batches s (of_nat j)) = b) [0..<unat (batches_length e)]))))]
       \<and> (requestBatchScoreDecryption x e s b = Inr t \<longrightarrow>
            decryptionRequests t = decryptionRequests s @ [batchCiphertexts x e s b]
            \<and> decryptionContexts t (oracle_requestId e) =
                \<lparr>batchId = b, stateHash = hashCiphertexts x (batchCiphertexts x e s b),
                 processed = False\<rparr>)
       \<and> (requestBatchScoreDecryption x e s b = Inr t
            \<and> requestBatchScoreDecryption x e s' b = Inr t' \<longrightarrow>
            last (decryptionRequests t') = last (decryptionRequests t)
            \<and> stateHash (decryptionContexts t' (oracle_requestId e))
                = stateHash (decryptionContexts t (oracle_requestId e)))
       \<and> (\<not> processed (decryptionContexts s r) \<and> length ct = 32 \<longrightarrow>
            (myCallback x e s r ct pf = Inl StateMismatch \<longleftrightarrow>
               hashCiphertexts x (batchCiphertexts x e s (batchId (decryptionContexts s r)))
                 \<noteq> stateHash (decryptionContexts s r)))
       \<and> (myCallback x e s r ct pf = Inr u \<longrightarrow>
            hashCiphertexts x (batchCiphertexts x e s (batchId (decryptionContexts s r)))
              = stateHash (decryptionContexts s r))
       \<and> (decryptionContexts s' r = decryptionContexts s r \<longrightarrow>
            map_sum id (\<lambda>_. ()) (myCallback x e s' r ct pf)
              = map_sum id (\<lambda>_. ()) (myCallback x e s r ct pf))
       \<and> requestBatchScoreDecryption x e (s\<lparr>contributions := c\<rparr>) b =
           map_sum id (contributions_update (\<lambda>_. c)) (requestBatchScoreDecryption x e s b)
       \<and> myCallback x e (s\<lparr>contributions := c\<rparr>) r ct pf =
           map_sum id (contributions_update (\<lambda>_. c)) (myCallback x e s r ct pf)"
proof (intro conjI impI)
  show same: "batchCiphertexts x e s' b = batchCiphertexts x e s b"
    using assms by (rule batchCiphertexts_batches)
  show "batchCiphertexts x e s b =
           [toBytes32 x (asEuint32 x (of_nat (length
              (filter (\<lambda>j. idB (batches s (of_nat j)) = b) [0..<unat (batches_length e)]))))]"
    by (rule batchCiphertexts_count)
  have sent: "decryptionRequests t = decryptionRequests s @ [batchCiphertexts x e s b]"
    and ctx: "decryptionContexts t (oracle_requestId e) =
                \<lparr>batchId = b, stateHash = hashCiphertexts x (batchCiphertexts x e s b),
                 processed = False\<rparr>"
    if "requestBatchScoreDecryption x e s b = Inr t" for s t
    by (subst request_Inr(1) [OF that], simp)+
  {
    assume r: "requestBatchScoreDecryption x e s b = Inr t"
    show "decryptionRequests t = decryptionRequests s @ [batchCiphertexts x e s b]"
      by (rule sent [OF r])
    show "decryptionContexts t (oracle_requestId e) =
                \<lparr>batchId = b, stateHash = hashCiphertexts x (batchCiphertexts x e s b),
                 processed = False\<rparr>"
      by (rule ctx [OF r])
  }
  {
    assume "requestBatchScoreDecryption x e s b = Inr t
            \<and> requestBatchScoreDecryption x e s' b = Inr t'"
    then have r: "requestBatchScoreDecryption x e s b = Inr t"
      and r': "requestBatchScoreDecryption x e s' b = Inr t'"
      by simp_all
    show "last (decryptionRequests t') = last (decryptionRequests t)"
      by (simp add: sent [OF r] sent [OF r'] same)
    show "stateHash (decryptionContexts t' (oracle_requestId e))
                = stateHash (decryptionContexts t (oracle_requestId e))"
      by (simp add: ctx [OF r] ctx [OF r'] same)
  }
  {
    assume "\<not> processed (decryptionContexts s r) \<and> length ct = 32"
    then show "myCallback x e s r ct pf = Inl StateMismatch \<longleftrightarrow>
               hashCiphertexts x (batchCiphertexts x e s (batchId (decryptionContexts s r)))
                 \<noteq> stateHash (decryptionContexts s r)"
      by (simp add: callback_mismatch_iff)
  }
  {
    assume "myCallback x e s r ct pf = Inr u"
    then show "hashCiphertexts x (batchCiphertexts x e s (batchId (decryptionContexts s r)))
              = stateHash (decryptionContexts s r)"
      by (rule callback_Inr(4))
  }
  {
    assume "decryptionContexts s' r = decryptionContexts s r"
    with assms show "map_sum id (\<lambda>_. ()) (myCallback x e s' r ct pf)
              = map_sum id (\<lambda>_. ()) (myCallback x e s r ct pf)"
      by (rule callback_verdict)
  }
  show "requestBatchScoreDecryption x e (s\<lparr>contributions := c\<rparr>) b =
           map_sum id (contributions_update (\<lambda>_. c)) (requestBatchScoreDecryption x e s b)"
    by (rule request_contributions)
  show "myCallback x e (s\<lparr>contributions := c\<rparr>) r ct pf =
           map_sum id (contributions_update (\<lambda>_. c)) (myCallback x e s r ct pf)"
    by (rule callback_contributions)
qed


lemma demoClosedTwo_eq:
  "demoClosedTwo = demoClosed
     \<lparr> contributions := (contributions demoClosed)
          (12 := \<lparr>skillScore = 8, contributionScore = 9, totalScore = 17, exists = True\<rparr>),
       lastSubmissionTime := (\<lambda>_. 0)(2 := 300),
       events := [BatchOpened 0, ProviderAdded 2, ContributionSubmitted 2 0 11,
                  ContributionSubmitted 2 0 12, BatchClosedEvent 0] \<rparr>"
  by (simp add: demoClosedTwo_def demoClosed_eq demoSubmitted_eq callEnv_def transact_def
      submitContribution_def closeBatch_def onlyProvider_def onlyOwner_def whenNotPaused_def
      checkSubmissionCooldown_def checkedAdd_def emit_def initIfNeeded_def Let_def demoExt_def)

lemma demo_request:
  "requestBatchScoreDecryption demoExt (callEnv 1 400 1) demoClosed 0 = Inr demoRequested"
  by (simp add: demoRequested_eq demoClosed_eq demoSubmitted_eq callEnv_def op_defs Let_def
       scanLoop.simps countLoop.simps demoExt_def)

lemma demo_request_two:
  "requestBatchScoreDecryption demoExt (callEnv 1 400 1) demoClosedTwo 0 = Inr demoRequestedTwo"
proof -
  have "\<not> isl (requestBatchScoreDecryption demoExt (callEnv 1 400 1) demoClosedTwo 0)"
    by (simp add: requestBatchScoreDecryption_def onlyOwner_def whenNotPaused_def
        checkDecryptionCooldown_def checkedAdd_def Let_def demoClosedTwo_eq demoClosed_eq
        demoSubmitted_eq callEnv_def)
  then show ?thesis
    by (cases "requestBatchScoreDecryption demoExt (callEnv 1 400 1) demoClosedTwo 0")
      (simp_all add: demoRequestedTwo_def transact_def)
qed

lemma demo_callback:
  "myCallback demoExt (callEnv 9 500 1) demoRequested 7 demoCleartexts [1] = Inr demoCompleted"
  by (simp add: demoCompleted_eq demoRequested_eq demoClosed_eq demoSubmitted_eq callEnv_def
      myCallback_def emit_def batchCiphertexts_count hashCiphertexts_def Let_def demoExt_def
      demoCleartexts_value upt_rec)

lemma demo_two_batches:
  "batches demoClosedTwo = batches demoClosed"
  "batches demoRequestedTwo = batches demoRequested"
  "exists (contributions demoClosedTwo 12)" "\<not> exists (contributions demoClosed 12)"
proof -
  show "batches demoClosedTwo = batches demoClosed"
    and "exists (contributions demoClosedTwo 12)" and "\<not> exists (contributions demoClosed 12)"
    by (simp_all add: demoClosedTwo_eq demoClosed_eq demoSubmitted_eq)
  then show "batches demoRequestedTwo = batches demoRequested"
    by (subst request_Inr(1) [OF demo_request_two], subst request_Inr(1) [OF demo_request])
      simp
qed

theorem aggregate_from_batch_table_only_witness:
  "batches demoClosedTwo = batches demoClosed
   \<and> exists (contributions demoClosedTwo 12) \<and> \<not> exists (contributions demoClosed 12)
   \<and> requestBatchScoreDecryption demoExt (callEnv 1 400 1) demoClosed 0 = Inr demoRequested
   \<and> requestBatchScoreDecryption demoExt (callEnv 1 400 1) demoClosedTwo 0
       = Inr demoRequestedTwo
   \<and> batchCiphertexts demoExt (callEnv 1 400 1) demoClosed 0 = [1]
   \<and> decryptionRequests demoRequested = [[1]]
   \<and> last (decryptionRequests demoRequestedTwo) = [1]
   \<and> decryptionContexts demoRequested 7 = \<lparr>batchId = 0, stateHash = 44, processed = False\<rparr>
   \<and> stateHash (decryptionContexts demoRequestedTwo 7) = 44
   \<and> batches demoRequestedTwo = batches demoRequested
   \<and> \<not> processed (decryptionContexts demoRequested 7) \<and> length demoCleartexts = 32
   \<and> myCallback demoExt (callEnv 9 500 1) demoRequested 7 demoCleartexts [1] = Inr demoCompleted
   \<and> myCallback demoExt (callEnv 9 500 1) demoRequested 7 demoCleartexts [1] \<noteq> Inl StateMismatch
   \<and> decryptionContexts demoRequestedTwo 7 = decryptionContexts demoRequested 7
   \<and> \<not> isl (myCallback demoExt (callEnv 9 500 1) demoRequestedTwo 7 demoCleartexts [1])"
proof -
  note req = aggregate_from_batch_table_only [OF demo_two_batches(1),
      where x = demoExt and e = "callEnv 1 400 1" and b = 0 and t = demoRequested
        and t' = demoRequestedTwo]
  have cts: "batchCiphertexts demoExt (callEnv 1 400 1) demoClosed 0 = [1]"
    using req by (simp add: demoClosed_eq demoSubmitted_eq demoExt_def callEnv_def)
  from req demo_request
  have sent: "decryptionRequests demoRequested
                = decryptionRequests demoClosed
                    @ [batchCiphertexts demoExt (callEnv 1 400 1) demoClosed 0]"
    and ctx: "decryptionContexts demoRequested (oracle_requestId (callEnv 1 400 1)) =
                \<lparr>batchId = 0,
                 stateHash = hashCiphertexts demoExt
                   (batchCiphertexts demoExt (callEnv 1 400 1) demoClosed 0),
                 processed = False\<rparr>"
    by blast+
  from req demo_request demo_request_two
  have two: "last (decryptionRequests demoRequestedTwo) = last (decryptionRequests demoRequested)"
    and hash2: "stateHash (decryptionContexts demoRequestedTwo
                  (oracle_requestId (callEnv 1 400 1)))
                = stateHash (decryptionContexts demoRequested
                    (oracle_requestId (callEnv 1 400 1)))"
    by blast+
  have a: "decryptionRequests demoRequested = [[1]]"
    using sent cts by (simp add: demoClosed_eq demoSubmitted_eq)
  have b: "decryptionContexts demoRequested 7
             = \<lparr>batchId = 0, stateHash = 44, processed = False\<rparr>"
    using ctx cts by (simp add: callEnv_def hashCiphertexts_def demoExt_def)
  have c: "last (decryptionRequests demoRequestedTwo) = [1]"
    using two a by simp
  have d: "stateHash (decryptionContexts demoRequestedTwo 7) = 44"
    using hash2 b by (simp add: callEnv_def)
  have cts2: "batchCiphertexts demoExt (callEnv 1 400 1) demoClosedTwo 0 = [1]"
    using batchCiphertexts_batches [OF demo_two_batches(1), of demoExt "callEnv 1 400 1" 0] cts
    by simp
  have "decryptionContexts demoRequestedTwo 7
          = \<lparr>batchId = 0, stateHash = 44, processed = False\<rparr>"
    by (subst request_Inr(1) [OF demo_request_two])
      (simp add: cts2, simp add: callEnv_def hashCiphertexts_def demoExt_def)
  with b have same_ctx:
    "decryptionContexts demoRequestedTwo 7 = decryptionContexts demoRequested 7"
    by simp
  note cb = aggregate_from_batch_table_only [OF demo_two_batches(2),
      where x = demoExt and e = "callEnv 9 500 1" and r = 7 and ct = demoCleartexts
        and pf = "[1]" and u = demoCompleted]
  have unprocessed: "\<not> processed (decryptionContexts demoRequested 7)" using b by simp
  from cb demo_callback
  have "hashCiphertexts demoExt (batchCiphertexts demoExt (callEnv 9 500 1) demoRequested
          (batchId (decryptionContexts demoRequested 7)))
        = stateHash (decryptionContexts demoRequested 7)"
    by blast
  with cb unprocessed demoCleartexts_value
  have f: "myCallback demoExt (callEnv 9 500 1) demoRequested 7 demoCleartexts [1]
             \<noteq> Inl StateMismatch"
    by blast
  from cb same_ctx
  have "map_sum id (\<lambda>_. ()) (myCallback demoExt (callEnv 9 500 1) demoRequestedTwo 7
                                demoCleartexts [1])
          = map_sum id (\<lambda>_. ()) (myCallback demoExt (callEnv 9 500 1) demoRequested 7
                                    demoCleartexts [1])"
    by blast
  then have g: "\<not> isl (myCallback demoExt (callEnv 9 500 1) demoRequestedTwo 7
                          demoCleartexts [1])"
    by (cases "myCallback demoExt (callEnv 9 500 1) demoRequestedTwo 7 demoCleartexts [1]")
      (simp_all add: demo_callback)
  from demo_two_batches demo_request demo_request_two cts a b c d unprocessed
    demoCleartexts_value demo_callback f same_ctx g
  show ?thesis by simp
qed

section \<open>A contribution stored after the request\<close>






section \<open>Replay of a callback\<close>









section \<open>Submissions\<close>

lemma checkedAdd_cases:
  "checkedAdd a b = (if unat a + unat b < 2 ^ 256 then Some (a + b) else None)"
  "unat a + unat b < 2 ^ 256 \<Longrightarrow> unat (a + b) = unat a + unat b"
  by (simp_all add: checkedAdd_def unat_add_lem [THEN iffD1])

lemma submission_cooldown_cases:
  "checkSubmissionCooldown e s body =
     (if 2 ^ 256 \<le> unat (lastSubmissionTime s (msg_sender e)) + unat (cooldownSeconds s)
      then Inl Panic
      else if unat (block_timestamp e)
                < unat (lastSubmissionTime s (msg_sender e)) + unat (cooldownSeconds s)
      then Inl CooldownActive
      else body)"
  by (simp add: checkSubmissionCooldown_def checkedAdd_cases word_less_nat_alt not_le)

lemma decryption_cooldown_cases:
  "checkDecryptionCooldown e s body =
     (if 2 ^ 256 \<le> unat (lastDecryptionRequestTime s (msg_sender e)) + unat (cooldownSeconds s)
      then Inl Panic
      else if unat (block_timestamp e)
                < unat (lastDecryptionRequestTime s (msg_sender e)) + unat (cooldownSeconds s)
      then Inl CooldownActive
      else body)"
  by (simp add: checkDecryptionCooldown_def checkedAdd_cases word_less_nat_alt not_le)

lemma submit_Inr:
  assumes "submitContribution x e s b cid h1 h2 = Inr s'"
  shows "s' = s\<lparr>contributions := (contributions s)
                  (cid := \<lparr>skillScore = h1, contributionScore = h2,
                           totalScore = fheAdd x h1 h2, exists = True\<rparr>),
               lastSubmissionTime :=
                  (lastSubmissionTime s)(msg_sender e := block_timestamp e),
               fheInitialized := True,
               events := events s @ [ContributionSubmitted (msg_sender e) b cid]\<rparr>"
    and "\<not> exists (contributions s cid)"
    and "openB (batches s b)"
    and "providers s (msg_sender e)"
  using assms
  by (auto simp: submitContribution_def onlyProvider_def whenNotPaused_def
      submission_cooldown_cases emit_def initIfNeeded_def Let_def split: if_splits)

text \<open>
  Claim C4, as amended. When the contribution id already exists, \<^verbatim>\<open>submitContribution\<close>
  reverts and storage stays as it was; when the checks before it pass (provider role, not
  paused, cooldown elapsed, batch id below \<^verbatim>\<open>batches.length\<close>, batch open) the error is
  \<^verbatim>\<open>InvalidArgument\<close>, the contract declaring no error of its own for a duplicate. A call
  that succeeds found the id unused and stores the two handles, their sum handle and the
  flag under it; with the same checks passed and the id unused the call succeeds.
\<close>

theorem submit_existing_id:
  "(exists (contributions s cid) \<longrightarrow>
      isl (submitContribution x e s b cid h1 h2)
      \<and> transact x s (e, SubmitContribution b cid h1 h2) = s)
   \<and> (providers s (msg_sender e) \<and> \<not> paused s
        \<and> unat (lastSubmissionTime s (msg_sender e)) + unat (cooldownSeconds s)
             \<le> unat (block_timestamp e)
        \<and> unat b < unat (batches_length e) \<and> openB (batches s b) \<longrightarrow>
        (exists (contributions s cid) \<longrightarrow>
           submitContribution x e s b cid h1 h2 = Inl InvalidArgument)
        \<and> (\<not> exists (contributions s cid) \<longrightarrow>
           \<not> isl (submitContribution x e s b cid h1 h2)))
   \<and> (submitContribution x e s b cid h1 h2 = Inr s' \<longrightarrow>
        \<not> exists (contributions s cid)
        \<and> contributions s' = (contributions s)
             (cid := \<lparr>skillScore = h1, contributionScore = h2,
                      totalScore = fheAdd x h1 h2, exists = True\<rparr>))"
proof (intro conjI impI)
  assume ex: "exists (contributions s cid)"
  then show isl: "isl (submitContribution x e s b cid h1 h2)"
    by (simp add: submitContribution_def onlyProvider_def whenNotPaused_def
        submission_cooldown_cases)
  then show "transact x s (e, SubmitContribution b cid h1 h2) = s"
    by (auto simp: transact_def split: sum.splits)
next
  assume g: "providers s (msg_sender e) \<and> \<not> paused s
        \<and> unat (lastSubmissionTime s (msg_sender e)) + unat (cooldownSeconds s)
             \<le> unat (block_timestamp e)
        \<and> unat b < unat (batches_length e) \<and> openB (batches s b)"
  have "unat (block_timestamp e) < 2 ^ 256"
    using unsigned_less [of "block_timestamp e"] by simp
  with g have nov: "\<not> 2 ^ 256 \<le> unat (lastSubmissionTime s (msg_sender e))
                                  + unat (cooldownSeconds s)"
    by linarith
  {
    assume "exists (contributions s cid)"
    with g nov show "submitContribution x e s b cid h1 h2 = Inl InvalidArgument"
      by (simp add: submitContribution_def onlyProvider_def whenNotPaused_def
          submission_cooldown_cases)
  next
    assume "\<not> exists (contributions s cid)"
    with g nov show "\<not> isl (submitContribution x e s b cid h1 h2)"
      by (simp add: submitContribution_def onlyProvider_def whenNotPaused_def
          submission_cooldown_cases Let_def)
  }
next
  assume r: "submitContribution x e s b cid h1 h2 = Inr s'"
  show "\<not> exists (contributions s cid)" by (rule submit_Inr(2) [OF r])
  show "contributions s' = (contributions s)
             (cid := \<lparr>skillScore = h1, contributionScore = h2,
                      totalScore = fheAdd x h1 h2, exists = True\<rparr>)"
    by (subst submit_Inr(1) [OF r]) simp
qed

lemma demo_submit_guards:
  "providers demoSubmitted (msg_sender (callEnv 2 300 1)) \<and> \<not> paused demoSubmitted
   \<and> unat (lastSubmissionTime demoSubmitted (msg_sender (callEnv 2 300 1)))
        + unat (cooldownSeconds demoSubmitted) \<le> unat (block_timestamp (callEnv 2 300 1))
   \<and> unat (0 :: uint32) < unat (batches_length (callEnv 2 300 1))
   \<and> openB (batches demoSubmitted 0)"
  by (simp add: demoSubmitted_eq callEnv_def)

lemma demo_submit_ids:
  "exists (contributions demoSubmitted 11)" "\<not> exists (contributions demoSubmitted 12)"
  by (simp_all add: demoSubmitted_eq)

theorem submit_existing_id_witness:
  "exists (contributions demoSubmitted 11)
   \<and> \<not> exists (contributions demoSubmitted 12)
   \<and> providers demoSubmitted (msg_sender (callEnv 2 300 1)) \<and> \<not> paused demoSubmitted
   \<and> unat (lastSubmissionTime demoSubmitted (msg_sender (callEnv 2 300 1)))
        + unat (cooldownSeconds demoSubmitted) \<le> unat (block_timestamp (callEnv 2 300 1))
   \<and> unat (0 :: uint32) < unat (batches_length (callEnv 2 300 1))
   \<and> openB (batches demoSubmitted 0)
   \<and> transact demoExt demoSubmitted (callEnv 2 300 1, SubmitContribution 0 11 8 9)
       = demoSubmitted
   \<and> submitContribution demoExt (callEnv 2 300 1) demoSubmitted 0 11 8 9 = Inl InvalidArgument
   \<and> submitContribution demoExt (callEnv 2 300 1) demoSubmitted 0 12 8 9
       = Inr (transact demoExt demoSubmitted (callEnv 2 300 1, SubmitContribution 0 12 8 9))
   \<and> contributions
        (transact demoExt demoSubmitted (callEnv 2 300 1, SubmitContribution 0 12 8 9)) 12
       = \<lparr>skillScore = 8, contributionScore = 9, totalScore = 17, exists = True\<rparr>"
proof -
  note dup = submit_existing_id [of demoSubmitted 11 demoExt "callEnv 2 300 1" 0 8 9]
  note new = submit_existing_id [of demoSubmitted 12 demoExt "callEnv 2 300 1" 0 8 9
      "transact demoExt demoSubmitted (callEnv 2 300 1, SubmitContribution 0 12 8 9)"]
  from dup demo_submit_ids(1) demo_submit_guards
  have a: "transact demoExt demoSubmitted (callEnv 2 300 1, SubmitContribution 0 11 8 9)
       = demoSubmitted"
    and b: "submitContribution demoExt (callEnv 2 300 1) demoSubmitted 0 11 8 9
       = Inl InvalidArgument"
    by blast+
  from new demo_submit_ids(2) demo_submit_guards
  have "\<not> isl (submitContribution demoExt (callEnv 2 300 1) demoSubmitted 0 12 8 9)"
    by blast
  then have c: "submitContribution demoExt (callEnv 2 300 1) demoSubmitted 0 12 8 9
       = Inr (transact demoExt demoSubmitted (callEnv 2 300 1, SubmitContribution 0 12 8 9))"
    by (cases "submitContribution demoExt (callEnv 2 300 1) demoSubmitted 0 12 8 9")
      (simp_all add: transact_def)
  with new have "contributions
        (transact demoExt demoSubmitted (callEnv 2 300 1, SubmitContribution 0 12 8 9))
       = (contributions demoSubmitted)
           (12 := \<lparr>skillScore = 8, contributionScore = 9,
                    totalScore = fheAdd demoExt 8 9, exists = True\<rparr>)"
    by blast
  then have d: "contributions
        (transact demoExt demoSubmitted (callEnv 2 300 1, SubmitContribution 0 12 8 9)) 12
       = \<lparr>skillScore = 8, contributionScore = 9, totalScore = 17, exists = True\<rparr>"
    by (simp add: demoExt_def)
  from a b c d demo_submit_ids demo_submit_guards show ?thesis by simp
qed

text \<open>
  The claim as stated fails here: provider 2 submits again under the stored id 11, with
  every earlier check passed, and the error is \<^verbatim>\<open>InvalidArgument\<close>.
\<close>

theorem submit_duplicate_is_InvalidArgument:
  "exists (contributions demoSubmitted 11)
   \<and> submitContribution demoExt (callEnv 2 300 1) demoSubmitted 0 11 8 9 = Inl InvalidArgument"
  by (simp add: demoSubmitted_eq callEnv_def demoExt_def submitContribution_def
      onlyProvider_def whenNotPaused_def submission_cooldown_cases)

section \<open>The callback's entry checks\<close>

lemma transact_isl: "isl (dispatch x e s c) \<Longrightarrow> transact x s (e, c) = s"
  by (auto simp: transact_def split: sum.splits)

text \<open>
  Claim C5, as amended. The contract keeps no record of which request ids exist and
  declares no error for an unknown one: a request id without a context reads as the
  zero context (batch 0, hash 0, not processed). For such an id \<^verbatim>\<open>myCallback\<close> reverts
  with \<^verbatim>\<open>DecryptionFailed\<close> when the cleartext is not 32 bytes long, and with
  \<^verbatim>\<open>StateMismatch\<close> when it is and the hash recomputed for batch 0 is not zero; in these
  cases, and when the proof is rejected, storage stays as it was.
\<close>

theorem callback_unknown_request:
  assumes "decryptionContexts s r = \<lparr>batchId = 0, stateHash = 0, processed = False\<rparr>"
  shows "(length ct \<noteq> 32 \<longrightarrow> myCallback x e s r ct pf = Inl DecryptionFailed)
       \<and> (length ct = 32 \<and> hashCiphertexts x (batchCiphertexts x e s 0) \<noteq> 0 \<longrightarrow>
            myCallback x e s r ct pf = Inl StateMismatch)
       \<and> (length ct \<noteq> 32 \<or> hashCiphertexts x (batchCiphertexts x e s 0) \<noteq> 0
            \<or> \<not> checkSignatures x r ct pf \<longrightarrow>
            isl (myCallback x e s r ct pf) \<and> transact x s (e, MyCallback r ct pf) = s)"
proof -
  have a: "length ct \<noteq> 32 \<Longrightarrow> myCallback x e s r ct pf = Inl DecryptionFailed"
    using assms by (simp add: myCallback_def)
  have b: "length ct = 32 \<Longrightarrow> hashCiphertexts x (batchCiphertexts x e s 0) \<noteq> 0 \<Longrightarrow>
      myCallback x e s r ct pf = Inl StateMismatch"
    using assms by (simp add: myCallback_def Let_def)
  have c: "\<not> checkSignatures x r ct pf \<Longrightarrow> isl (myCallback x e s r ct pf)"
    by (simp add: myCallback_def Let_def)
  have "isl (myCallback x e s r ct pf)"
    if "length ct \<noteq> 32 \<or> hashCiphertexts x (batchCiphertexts x e s 0) \<noteq> 0
        \<or> \<not> checkSignatures x r ct pf"
    using that a b c by (cases "length ct = 32") auto
  then show ?thesis
    using a b transact_isl [of x e s "MyCallback r ct pf"] by simp
qed

lemma demo_fresh_hash:
  "hashCiphertexts demoExt
     (batchCiphertexts demoExt (callEnv 9 500 0) (constructor (callEnv 1 100 0)) 0) = 43"
  by (simp add: batchCiphertexts_count hashCiphertexts_def demoExt_def callEnv_def)

lemma demo_fresh_context:
  "decryptionContexts (constructor (callEnv 1 100 0)) 7
     = \<lparr>batchId = 0, stateHash = 0, processed = False\<rparr>"
  by (simp add: constructor_def initIfNeeded_def)

theorem callback_unknown_request_witness:
  "decryptionContexts (constructor (callEnv 1 100 0)) 7
     = \<lparr>batchId = 0, stateHash = 0, processed = False\<rparr>
   \<and> length ([] :: bytes) \<noteq> 32
   \<and> myCallback demoExt (callEnv 9 500 0) (constructor (callEnv 1 100 0)) 7 [] [1]
       = Inl DecryptionFailed
   \<and> length demoCleartexts = 32
   \<and> hashCiphertexts demoExt
        (batchCiphertexts demoExt (callEnv 9 500 0) (constructor (callEnv 1 100 0)) 0) \<noteq> 0
   \<and> myCallback demoExt (callEnv 9 500 0) (constructor (callEnv 1 100 0)) 7 demoCleartexts [1]
       = Inl StateMismatch
   \<and> transact demoExt (constructor (callEnv 1 100 0))
        (callEnv 9 500 0, MyCallback 7 demoCleartexts [1]) = constructor (callEnv 1 100 0)"
  using callback_unknown_request [OF demo_fresh_context, of "[]" demoExt "callEnv 9 500 0" "[1]"]
    callback_unknown_request [OF demo_fresh_context, of demoCleartexts demoExt
      "callEnv 9 500 0" "[1]"]
    demo_fresh_context
  by (simp add: demo_fresh_hash demoCleartexts_value)

text \<open>
  The claim as stated fails here: no request was ever issued, and a callback for id 7
  surfaces \<^verbatim>\<open>DecryptionFailed\<close> or \<^verbatim>\<open>StateMismatch\<close>, by the length of its cleartext.
\<close>

theorem callback_unknown_request_other_errors:
  "decryptionContexts (constructor (callEnv 1 100 0)) 7
     = \<lparr>batchId = 0, stateHash = 0, processed = False\<rparr>
   \<and> myCallback demoExt (callEnv 9 500 0) (constructor (callEnv 1 100 0)) 7 [] [1]
       = Inl DecryptionFailed
   \<and> myCallback demoExt (callEnv 9 500 0) (constructor (callEnv 1 100 0)) 7 demoCleartexts [1]
       = Inl StateMismatch"
  by (simp add: myCallback_def demo_fresh_context demo_fresh_hash demoCleartexts_value Let_def)

section \<open>The pause gate\<close>

text \<open>
  Claim C6, as amended. While the contract is paused, each of the six functions that
  carry \<^verbatim>\<open>whenNotPaused\<close> reverts and storage stays as it was: with \<^verbatim>\<open>Paused\<close> when
  the caller passes the role check written before the gate, with \<^verbatim>\<open>NotOwner\<close> or
  \<^verbatim>\<open>NotProvider\<close> otherwise.
\<close>

theorem paused_calls_revert:
  assumes "paused s"
  shows "addProvider e s p = Inl (if msg_sender e \<noteq> owner s then NotOwner else Paused)
       \<and> removeProvider e s p = Inl (if msg_sender e \<noteq> owner s then NotOwner else Paused)
       \<and> openBatch e s = Inl (if msg_sender e \<noteq> owner s then NotOwner else Paused)
       \<and> closeBatch e s b = Inl (if msg_sender e \<noteq> owner s then NotOwner else Paused)
       \<and> submitContribution x e s b cid h1 h2
            = Inl (if \<not> providers s (msg_sender e) then NotProvider else Paused)
       \<and> requestBatchScoreDecryption x e s b
            = Inl (if msg_sender e \<noteq> owner s then NotOwner else Paused)
       \<and> (c \<in> {AddProvider p, RemoveProvider p, OpenBatch, CloseBatch b,
                 SubmitContribution b cid h1 h2, RequestBatchScoreDecryption b} \<longrightarrow>
            transact x s (e, c) = s)"
proof -
  have ops: "addProvider e s p = Inl (if msg_sender e \<noteq> owner s then NotOwner else Paused)"
    "removeProvider e s p = Inl (if msg_sender e \<noteq> owner s then NotOwner else Paused)"
    "openBatch e s = Inl (if msg_sender e \<noteq> owner s then NotOwner else Paused)"
    "closeBatch e s b = Inl (if msg_sender e \<noteq> owner s then NotOwner else Paused)"
    "submitContribution x e s b cid h1 h2
       = Inl (if \<not> providers s (msg_sender e) then NotProvider else Paused)"
    "requestBatchScoreDecryption x e s b
       = Inl (if msg_sender e \<noteq> owner s then NotOwner else Paused)"
    using assms
    by (simp_all add: addProvider_def removeProvider_def openBatch_def closeBatch_def
        submitContribution_def requestBatchScoreDecryption_def onlyOwner_def onlyProvider_def
        whenNotPaused_def)
  have "transact x s (e, c) = s"
    if "c \<in> {AddProvider p, RemoveProvider p, OpenBatch, CloseBatch b,
              SubmitContribution b cid h1 h2, RequestBatchScoreDecryption b}"
    using that by (intro transact_isl) (auto simp: ops)
  with ops show ?thesis by simp
qed

lemma demoPaused_eq:
  "demoPaused = (constructor (callEnv 1 100 0))\<lparr>paused := True, events := [PausedEvent 1]\<rparr>"
  by (simp add: demoPaused_def transact_def pause_def onlyOwner_def emit_def constructor_def
      initIfNeeded_def callEnv_def)

lemma demoPaused_fields: "paused demoPaused" "owner demoPaused = 1"
  by (simp_all add: demoPaused_eq constructor_def initIfNeeded_def callEnv_def)

theorem paused_calls_revert_witness:
  "paused demoPaused
   \<and> addProvider (callEnv 1 200 0) demoPaused 2 = Inl Paused
   \<and> addProvider (callEnv 2 200 0) demoPaused 2 = Inl NotOwner
   \<and> openBatch (callEnv 1 200 0) demoPaused = Inl Paused
   \<and> OpenBatch \<in> {AddProvider 2, RemoveProvider 2, OpenBatch, CloseBatch 0,
                    SubmitContribution 0 11 5 6, RequestBatchScoreDecryption 0}
   \<and> transact demoExt demoPaused (callEnv 1 200 0, OpenBatch) = demoPaused"
  using paused_calls_revert [OF demoPaused_fields(1), of "callEnv 1 200 0" 2 0 demoExt 11 5 6
      OpenBatch]
    paused_calls_revert [OF demoPaused_fields(1), of "callEnv 2 200 0" 2 0 demoExt 11 5 6
      OpenBatch]
  by (simp add: demoPaused_fields callEnv_def)

text \<open>
  The claim as stated fails here: \<^verbatim>\<open>setCooldownSeconds\<close> carries no \<^verbatim>\<open>whenNotPaused\<close>,
  and the owner's call on the paused contract succeeds and changes the cooldown.
\<close>

theorem setCooldownSeconds_while_paused:
  "paused demoPaused
   \<and> setCooldownSeconds (callEnv 1 200 0) demoPaused 30
       = Inr (demoPaused\<lparr>cooldownSeconds := 30, events := [PausedEvent 1, CooldownSet 30]\<rparr>)
   \<and> cooldownSeconds demoPaused = 60"
  by (simp add: setCooldownSeconds_def onlyOwner_def emit_def demoPaused_eq constructor_def
      initIfNeeded_def callEnv_def)

section \<open>Who may deliver the callback\<close>

text \<open>
  Claim C7, as amended. \<^verbatim>\<open>myCallback\<close> is public and never reads \<^verbatim>\<open>msg.sender\<close>: its
  outcome is the same for every caller. What it demands of a delivery is a proof that
  \<^verbatim>\<open>FHE.checkSignatures\<close> accepts: when the proof is rejected the call reverts, whoever
  the caller is, and storage stays as it was.
\<close>

theorem callback_any_caller:
  "myCallback x (e\<lparr>msg_sender := a\<rparr>) s r ct pf = myCallback x e s r ct pf
   \<and> (\<not> checkSignatures x r ct pf \<longrightarrow>
        isl (myCallback x e s r ct pf) \<and> transact x s (e, MyCallback r ct pf) = s)"
proof -
  have "batchCiphertexts x (e\<lparr>msg_sender := a\<rparr>) s b = batchCiphertexts x e s b" for b
    by (simp add: batchCiphertexts_def)
  then have "myCallback x (e\<lparr>msg_sender := a\<rparr>) s r ct pf = myCallback x e s r ct pf"
    by (simp add: myCallback_def)
  moreover have "isl (myCallback x e s r ct pf)" if "\<not> checkSignatures x r ct pf"
    using that by (simp add: myCallback_def Let_def)
  ultimately show ?thesis
    using transact_isl [of x e s "MyCallback r ct pf"] by simp
qed

theorem callback_any_caller_witness:
  "\<not> checkSignatures demoExt 7 demoCleartexts [2]
   \<and> isl (myCallback demoExt (callEnv 9 500 1) demoRequested 7 demoCleartexts [2])
   \<and> transact demoExt demoRequested (callEnv 9 500 1, MyCallback 7 demoCleartexts [2])
       = demoRequested
   \<and> myCallback demoExt ((callEnv 9 500 1)\<lparr>msg_sender := 8\<rparr>) demoRequested 7 demoCleartexts [1]
       = Inr demoCompleted"
  using callback_any_caller [where x = demoExt and e = "callEnv 9 500 1" and a = 8
      and s = demoRequested and r = 7 and ct = demoCleartexts and pf = "[2]"]
    callback_any_caller [where x = demoExt and e = "callEnv 9 500 1" and a = 8
      and s = demoRequested and r = 7 and ct = demoCleartexts and pf = "[1]"]
    demo_callback
  by (simp add: demoExt_def)

text \<open>
  The claim as stated fails here: callers 9 and 8 deliver the same payload, and the
  callback accepts it from either; at most one of them is the oracle.
\<close>

theorem callback_accepts_two_callers:
  "msg_sender (callEnv 9 500 1) \<noteq> msg_sender (callEnv 8 500 1)
   \<and> myCallback demoExt (callEnv 9 500 1) demoRequested 7 demoCleartexts [1] = Inr demoCompleted
   \<and> myCallback demoExt (callEnv 8 500 1) demoRequested 7 demoCleartexts [1] = Inr demoCompleted
   \<and> processed (decryptionContexts demoCompleted 7)
   \<and> \<not> processed (decryptionContexts demoRequested 7)"
  by (simp add: demoCompleted_eq demoRequested_eq demoClosed_eq demoSubmitted_eq callEnv_def
      myCallback_def emit_def batchCiphertexts_count hashCiphertexts_def Let_def demoExt_def
      demoCleartexts_value upt_rec)

section \<open>Cooldowns\<close>

lemma submit_CooldownActive_iff:
  assumes "providers s (msg_sender e)" and "\<not> paused s"
    and "unat (lastSubmissionTime s (msg_sender e)) + unat (cooldownSeconds s) < 2 ^ 256"
  shows "submitContribution x e s b cid h1 h2 = Inl CooldownActive \<longleftrightarrow>
         unat (block_timestamp e)
           < unat (lastSubmissionTime s (msg_sender e)) + unat (cooldownSeconds s)"
  using assms
  by (simp add: submitContribution_def onlyProvider_def whenNotPaused_def
      submission_cooldown_cases Let_def)

lemma request_CooldownActive_iff:
  assumes "msg_sender e = owner s" and "\<not> paused s"
    and "unat (lastDecryptionRequestTime s (msg_sender e)) + unat (cooldownSeconds s) < 2 ^ 256"
  shows "requestBatchScoreDecryption x e s b = Inl CooldownActive \<longleftrightarrow>
         unat (block_timestamp e)
           < unat (lastDecryptionRequestTime s (msg_sender e)) + unat (cooldownSeconds s)"
  using assms
  by (simp add: requestBatchScoreDecryption_def onlyOwner_def whenNotPaused_def
      decryption_cooldown_cases Let_def)

text \<open>
  Claim C8, as amended. For a provider on an unpaused contract, \<^verbatim>\<open>submitContribution\<close>
  reverts with \<^verbatim>\<open>CooldownActive\<close> exactly when the block time is below the caller's
  last submission time plus \<^verbatim>\<open>cooldownSeconds\<close>, provided that sum fits in 256 bits;
  likewise \<^verbatim>\<open>requestBatchScoreDecryption\<close> for the owner and the last request time. A
  successful submission sets the caller's last submission time to the block time and
  leaves the request times alone; a successful request sets the caller's last request
  time and leaves the submission times alone; a call that reverts changes neither.
\<close>

theorem cooldown_check_and_record:
  "(providers s (msg_sender e) \<and> \<not> paused s
      \<and> unat (lastSubmissionTime s (msg_sender e)) + unat (cooldownSeconds s) < 2 ^ 256 \<longrightarrow>
      (submitContribution x e s b cid h1 h2 = Inl CooldownActive \<longleftrightarrow>
         unat (block_timestamp e)
           < unat (lastSubmissionTime s (msg_sender e)) + unat (cooldownSeconds s)))
   \<and> (msg_sender e = owner s \<and> \<not> paused s
      \<and> unat (lastDecryptionRequestTime s (msg_sender e)) + unat (cooldownSeconds s) < 2 ^ 256
      \<longrightarrow>
      (requestBatchScoreDecryption x e s b = Inl CooldownActive \<longleftrightarrow>
         unat (block_timestamp e)
           < unat (lastDecryptionRequestTime s (msg_sender e)) + unat (cooldownSeconds s)))
   \<and> (submitContribution x e s b cid h1 h2 = Inr s1 \<longrightarrow>
        lastSubmissionTime s1 = (lastSubmissionTime s)(msg_sender e := block_timestamp e)
        \<and> lastDecryptionRequestTime s1 = lastDecryptionRequestTime s)
   \<and> (requestBatchScoreDecryption x e s b = Inr s2 \<longrightarrow>
        lastDecryptionRequestTime s2
          = (lastDecryptionRequestTime s)(msg_sender e := block_timestamp e)
        \<and> lastSubmissionTime s2 = lastSubmissionTime s)
   \<and> (isl (dispatch x e s c) \<longrightarrow>
        lastSubmissionTime (transact x s (e, c)) = lastSubmissionTime s
        \<and> lastDecryptionRequestTime (transact x s (e, c)) = lastDecryptionRequestTime s)"
proof (intro conjI impI)
  assume "providers s (msg_sender e) \<and> \<not> paused s
      \<and> unat (lastSubmissionTime s (msg_sender e)) + unat (cooldownSeconds s) < 2 ^ 256"
  then show "submitContribution x e s b cid h1 h2 = Inl CooldownActive \<longleftrightarrow>
         unat (block_timestamp e)
           < unat (lastSubmissionTime s (msg_sender e)) + unat (cooldownSeconds s)"
    using submit_CooldownActive_iff [of s e x b cid h1 h2] by blast
next
  assume "msg_sender e = owner s \<and> \<not> paused s
      \<and> unat (lastDecryptionRequestTime s (msg_sender e)) + unat (cooldownSeconds s) < 2 ^ 256"
  then show "requestBatchScoreDecryption x e s b = Inl CooldownActive \<longleftrightarrow>
         unat (block_timestamp e)
           < unat (lastDecryptionRequestTime s (msg_sender e)) + unat (cooldownSeconds s)"
    using request_CooldownActive_iff [of e s x b] by blast
next
  assume r: "submitContribution x e s b cid h1 h2 = Inr s1"
  show "lastSubmissionTime s1 = (lastSubmissionTime s)(msg_sender e := block_timestamp e)"
    and "lastDecryptionRequestTime s1 = lastDecryptionRequestTime s"
    by (subst submit_Inr(1) [OF r], simp)+
next
  assume r: "requestBatchScoreDecryption x e s b = Inr s2"
  show "lastDecryptionRequestTime s2
          = (lastDecryptionRequestTime s)(msg_sender e := block_timestamp e)"
    and "lastSubmissionTime s2 = lastSubmissionTime s"
    by (subst request_Inr(1) [OF r], simp)+
next
  assume "isl (dispatch x e s c)"
  then have "transact x s (e, c) = s" by (rule transact_isl)
  then show "lastSubmissionTime (transact x s (e, c)) = lastSubmissionTime s"
    and "lastDecryptionRequestTime (transact x s (e, c)) = lastDecryptionRequestTime s"
    by simp_all
qed

lemma demoLongCooldown_eq:
  "demoLongCooldown
     = demoSubmitted\<lparr>cooldownSeconds := - 1,
         events := [BatchOpened 0, ProviderAdded 2, ContributionSubmitted 2 0 11,
                    CooldownSet (- 1)]\<rparr>"
  by (simp add: demoLongCooldown_def transact_def setCooldownSeconds_def onlyOwner_def emit_def
      demoSubmitted_eq callEnv_def)

lemma demo_cooldown_guards:
  "providers demoSubmitted (msg_sender (callEnv 2 230 1))" "\<not> paused demoSubmitted"
  "unat (lastSubmissionTime demoSubmitted (msg_sender (callEnv 2 230 1)))
     + unat (cooldownSeconds demoSubmitted) = 260"
  "unat (block_timestamp (callEnv 2 230 1)) = 230"
  "msg_sender (callEnv 1 300 1) = owner demoSubmitted"
  "unat (lastDecryptionRequestTime demoSubmitted (msg_sender (callEnv 1 300 1)))
     + unat (cooldownSeconds demoSubmitted) = 60"
  "unat (block_timestamp (callEnv 1 300 1)) = 300"
  by (simp_all add: demoSubmitted_eq callEnv_def)

lemma demo_second_submit:
  "submitContribution demoExt (callEnv 2 300 1) demoSubmitted 0 12 8 9
     = Inr (transact demoExt demoSubmitted (callEnv 2 300 1, SubmitContribution 0 12 8 9))"
proof -
  have "\<not> isl (submitContribution demoExt (callEnv 2 300 1) demoSubmitted 0 12 8 9)"
    by (simp add: submitContribution_def onlyProvider_def whenNotPaused_def
        submission_cooldown_cases Let_def demoSubmitted_eq callEnv_def)
  then show ?thesis
    by (cases "submitContribution demoExt (callEnv 2 300 1) demoSubmitted 0 12 8 9")
      (simp_all add: transact_def)
qed

theorem cooldown_check_and_record_witness:
  "providers demoSubmitted (msg_sender (callEnv 2 230 1)) \<and> \<not> paused demoSubmitted
   \<and> unat (lastSubmissionTime demoSubmitted (msg_sender (callEnv 2 230 1)))
        + unat (cooldownSeconds demoSubmitted) < 2 ^ 256
   \<and> unat (block_timestamp (callEnv 2 230 1))
        < unat (lastSubmissionTime demoSubmitted (msg_sender (callEnv 2 230 1)))
            + unat (cooldownSeconds demoSubmitted)
   \<and> submitContribution demoExt (callEnv 2 230 1) demoSubmitted 0 12 8 9 = Inl CooldownActive
   \<and> isl (dispatch demoExt (callEnv 2 230 1) demoSubmitted (SubmitContribution 0 12 8 9))
   \<and> lastSubmissionTime
        (transact demoExt demoSubmitted (callEnv 2 230 1, SubmitContribution 0 12 8 9))
       = lastSubmissionTime demoSubmitted
   \<and> msg_sender (callEnv 1 30 1) = owner demoSubmitted
   \<and> unat (lastDecryptionRequestTime demoSubmitted (msg_sender (callEnv 1 30 1)))
        + unat (cooldownSeconds demoSubmitted) < 2 ^ 256
   \<and> unat (block_timestamp (callEnv 1 30 1))
        < unat (lastDecryptionRequestTime demoSubmitted (msg_sender (callEnv 1 30 1)))
            + unat (cooldownSeconds demoSubmitted)
   \<and> requestBatchScoreDecryption demoExt (callEnv 1 30 1) demoSubmitted 0 = Inl CooldownActive
   \<and> submitContribution demoExt (callEnv 2 300 1) demoSubmitted 0 12 8 9
       = Inr (transact demoExt demoSubmitted (callEnv 2 300 1, SubmitContribution 0 12 8 9))
   \<and> lastSubmissionTime
        (transact demoExt demoSubmitted (callEnv 2 300 1, SubmitContribution 0 12 8 9)) 2 = 300
   \<and> requestBatchScoreDecryption demoExt (callEnv 1 400 1) demoClosed 0 = Inr demoRequested
   \<and> lastDecryptionRequestTime demoRequested 1 = 400
   \<and> lastSubmissionTime demoRequested = lastSubmissionTime demoClosed"
proof -
  note t = cooldown_check_and_record [of demoSubmitted "callEnv 2 230 1" demoExt 0 12 8 9
      _ _ "SubmitContribution 0 12 8 9"]
  have lt: "unat (lastSubmissionTime demoSubmitted (msg_sender (callEnv 2 230 1)))
        + unat (cooldownSeconds demoSubmitted) < 2 ^ 256"
    by (simp add: demo_cooldown_guards)
  have act: "unat (block_timestamp (callEnv 2 230 1))
        < unat (lastSubmissionTime demoSubmitted (msg_sender (callEnv 2 230 1)))
            + unat (cooldownSeconds demoSubmitted)"
    by (simp add: demo_cooldown_guards)
  from t lt act demo_cooldown_guards(1,2)
  have r: "submitContribution demoExt (callEnv 2 230 1) demoSubmitted 0 12 8 9
             = Inl CooldownActive"
    by blast
  then have i: "isl (dispatch demoExt (callEnv 2 230 1) demoSubmitted
                      (SubmitContribution 0 12 8 9))"
    by simp
  with t have u: "lastSubmissionTime
        (transact demoExt demoSubmitted (callEnv 2 230 1, SubmitContribution 0 12 8 9))
       = lastSubmissionTime demoSubmitted"
    by blast
  note t2 = cooldown_check_and_record [of demoSubmitted "callEnv 1 30 1" demoExt 0 12 8 9]
  have own: "msg_sender (callEnv 1 30 1) = owner demoSubmitted"
    and lt2: "unat (lastDecryptionRequestTime demoSubmitted (msg_sender (callEnv 1 30 1)))
        + unat (cooldownSeconds demoSubmitted) < 2 ^ 256"
    and act2: "unat (block_timestamp (callEnv 1 30 1))
        < unat (lastDecryptionRequestTime demoSubmitted (msg_sender (callEnv 1 30 1)))
            + unat (cooldownSeconds demoSubmitted)"
    by (simp_all add: demoSubmitted_eq callEnv_def)
  from t2 own lt2 act2 demo_cooldown_guards(2)
  have r2: "requestBatchScoreDecryption demoExt (callEnv 1 30 1) demoSubmitted 0
              = Inl CooldownActive"
    by blast
  from cooldown_check_and_record [of demoSubmitted "callEnv 2 300 1" demoExt 0 12 8 9
      "transact demoExt demoSubmitted (callEnv 2 300 1, SubmitContribution 0 12 8 9)"]
    demo_second_submit
  have "lastSubmissionTime
        (transact demoExt demoSubmitted (callEnv 2 300 1, SubmitContribution 0 12 8 9))
      = (lastSubmissionTime demoSubmitted)
          (msg_sender (callEnv 2 300 1) := block_timestamp (callEnv 2 300 1))"
    by blast
  then have v: "lastSubmissionTime
        (transact demoExt demoSubmitted (callEnv 2 300 1, SubmitContribution 0 12 8 9)) 2 = 300"
    by (simp add: callEnv_def)
  from cooldown_check_and_record [of demoClosed "callEnv 1 400 1" demoExt 0 12 8 9 _
      demoRequested] demo_request
  have "lastDecryptionRequestTime demoRequested
          = (lastDecryptionRequestTime demoClosed)
              (msg_sender (callEnv 1 400 1) := block_timestamp (callEnv 1 400 1))"
    and w: "lastSubmissionTime demoRequested = lastSubmissionTime demoClosed"
    by blast+
  then have w': "lastDecryptionRequestTime demoRequested 1 = 400"
    by (simp add: callEnv_def)
  from r i u lt act demo_cooldown_guards(1,2) own lt2 act2 r2 demo_second_submit v
    demo_request w w'
  show ?thesis by blast
qed

text \<open>
  The claim as stated fails here: the block time 300 is below the last submission time
  200 plus the cooldown \<open>2 ^ 256 - 1\<close>, and the call reverts with the arithmetic panic of
  the checked addition, not with \<^verbatim>\<open>CooldownActive\<close>.
\<close>

theorem cooldown_overflow_panics:
  "providers demoLongCooldown (msg_sender (callEnv 2 300 1)) \<and> \<not> paused demoLongCooldown
   \<and> unat (block_timestamp (callEnv 2 300 1))
        < unat (lastSubmissionTime demoLongCooldown (msg_sender (callEnv 2 300 1)))
            + unat (cooldownSeconds demoLongCooldown)
   \<and> submitContribution demoExt (callEnv 2 300 1) demoLongCooldown 0 12 8 9 = Inl Panic"
  by (simp add: demoLongCooldown_eq demoSubmitted_eq callEnv_def submitContribution_def
      onlyProvider_def whenNotPaused_def submission_cooldown_cases unsigned_minus_1_eq_mask mask_eq_exp_minus_1)

section \<open>Closing a batch\<close>

lemma openBatch_Inr:
  assumes "openBatch e s = Inr s'"
  shows "s' = s\<lparr>batches := (batches s)
                  (ucast (batches_length e) :=
                     \<lparr>idB = ucast (batches_length e), openB = True\<rparr>),
               events := events s @ [BatchOpened (ucast (batches_length e))]\<rparr>"
  using assms
  by (auto simp: openBatch_def onlyOwner_def whenNotPaused_def emit_def Let_def
      split: if_splits)

lemma closeBatch_Inr:
  assumes "closeBatch e s b = Inr s'"
  shows "s' = s\<lparr>batches := (batches s)(b := (batches s b)\<lparr>openB := False\<rparr>),
               events := events s @ [BatchClosedEvent b]\<rparr>"
  using assms
  by (auto simp: closeBatch_def onlyOwner_def whenNotPaused_def emit_def split: if_splits)






section \<open>Contributions are written once\<close>

lemma contributionIds_snoc:
  "contributionIds (evs @ [ev]) =
     contributionIds evs @ (case ev of ContributionSubmitted p b cid \<Rightarrow> [cid] | _ \<Rightarrow> [])"
  by (induction evs rule: contributionIds.induct) (simp_all split: event.split)

text \<open>What one transaction does to the contribution table and to the submitted ids of the
  log: nothing, or one successful submission under an id that did not exist.\<close>

lemma transact_contributions:
  "(contributions (transact x s (e, c)) = contributions s
      \<and> contributionIds (events (transact x s (e, c))) = contributionIds (events s))
   \<or> (\<exists>b cid h1 h2. c = SubmitContribution b cid h1 h2
        \<and> \<not> exists (contributions s cid)
        \<and> contributions (transact x s (e, c)) = (contributions s)
             (cid := \<lparr>skillScore = h1, contributionScore = h2,
                      totalScore = fheAdd x h1 h2, exists = True\<rparr>)
        \<and> contributionIds (events (transact x s (e, c))) = contributionIds (events s) @ [cid])"
proof (cases c)
  case (SubmitContribution b cid h1 h2)
  show ?thesis
  proof (cases "submitContribution x e s b cid h1 h2")
    case (Inl err)
    with SubmitContribution show ?thesis by (simp add: transact_def)
  next
    case (Inr s')
    have "transact x s (e, c) = s'" using SubmitContribution Inr by (simp add: transact_def)
    with submit_Inr(1,2) [OF Inr] SubmitContribution show ?thesis
      by (simp add: contributionIds_snoc)
  qed
next
  case OpenBatch
  then show ?thesis
    by (auto simp: transact_def contributionIds_snoc dest!: openBatch_Inr split: sum.splits)
next
  case (CloseBatch b)
  then show ?thesis
    by (auto simp: transact_def contributionIds_snoc dest!: closeBatch_Inr split: sum.splits)
next
  case (RequestBatchScoreDecryption b)
  then show ?thesis
    by (auto simp: transact_def contributionIds_snoc dest!: request_Inr(1) split: sum.splits)
next
  case (MyCallback r ct pf)
  then show ?thesis
    by (auto simp: transact_def contributionIds_snoc dest!: callback_Inr(1) split: sum.splits)
qed (auto simp: transact_def contributionIds_snoc addProvider_def removeProvider_def pause_def
       unpause_def setCooldownSeconds_def onlyOwner_def whenNotPaused_def emit_def
       split: sum.splits if_splits)

lemma stored_step:
  "exists (contributions s cid) \<Longrightarrow>
   contributions (transact x s (e, c)) cid = contributions s cid"
  using transact_contributions [of x s e c] by auto

lemma stored_run:
  "exists (contributions s cid) \<Longrightarrow> contributions (run x s ecs) cid = contributions s cid"
proof (induction ecs arbitrary: s)
  case Nil
  then show ?case by simp
next
  case (Cons ec ecs)
  obtain e c where ec: "ec = (e, c)" by (cases ec)
  have st: "contributions (transact x s ec) cid = contributions s cid"
    unfolding ec using Cons.prems by (rule stored_step)
  with Cons.prems have "exists (contributions (transact x s ec) cid)" by simp
  from Cons.IH [OF this] st show ?case by simp
qed

lemma storedOnce_step: "storedOnce s \<Longrightarrow> storedOnce (transact x s (e, c))"
  using transact_contributions [of x s e c] by (auto simp: storedOnce_def split: if_splits)

lemma storedOnce_run: "storedOnce s \<Longrightarrow> storedOnce (run x s ecs)"
proof (induction ecs arbitrary: s)
  case Nil
  then show ?case by simp
next
  case (Cons ec ecs)
  obtain e c where "ec = (e, c)" by (cases ec)
  with Cons.prems have "storedOnce (transact x s ec)" by (simp add: storedOnce_step)
  with Cons.IH show ?case by simp
qed

lemma storedOnce_constructor: "storedOnce (constructor e)"
  by (simp add: storedOnce_def constructor_def initIfNeeded_def)

text \<open>
  Claim C10. After any sequence of calls on a freshly constructed contract, and so after
  any sequence of submissions, the submission events name pairwise different contribution
  ids, and a contribution is stored exactly when an event names its id: no two stored
  contributions share an id. A record that exists is the same after any sequence of
  calls: its three handles and its flag are never written again.
\<close>

theorem contributions_written_once:
  "distinct (contributionIds (events (run x (constructor e0) ecs)))
   \<and> (cid \<in> set (contributionIds (events (run x (constructor e0) ecs)))
        \<longleftrightarrow> exists (contributions (run x (constructor e0) ecs) cid))
   \<and> (exists (contributions s cid) \<longrightarrow>
        contributions (run x s ecs') cid = contributions s cid)"
proof -
  have "storedOnce (run x (constructor e0) ecs)"
    by (intro storedOnce_run storedOnce_constructor)
  then show ?thesis by (simp add: storedOnce_def stored_run)
qed

theorem contributions_written_once_witness:
  "exists (contributions demoSubmitted 11)
   \<and> contributions
        (run demoExt demoSubmitted
           [(callEnv 2 300 1, SubmitContribution 0 11 8 9), (callEnv 1 350 1, CloseBatch 0)]) 11
       = \<lparr>skillScore = 5, contributionScore = 6, totalScore = 11, exists = True\<rparr>
   \<and> contributionIds (events demoSubmitted) = [11]
   \<and> distinct (contributionIds (events demoSubmitted))"
  using contributions_written_once [of demoExt "callEnv 1 100 0"
      "[(callEnv 1 100 0, OpenBatch), (callEnv 1 100 1, AddProvider 2),
        (callEnv 2 200 1, SubmitContribution 0 11 5 6)]" 11 demoSubmitted
      "[(callEnv 2 300 1, SubmitContribution 0 11 8 9), (callEnv 1 350 1, CloseBatch 0)]"]
  by (simp add: demoSubmitted_eq)

end
